theory Spec2Isabelle
  imports Main "HOL-Library.Char_ord" "HOL-Library.List_Lexorder"
begin

section \<open>The model registry (scripts/models/model_registry.py)\<close>

subsection \<open>Values and records\<close>

text \<open>
  Metrics and metadata are payload: the registry stores them and hands them back, and
  never computes with them. A float is kept as the decimal literal that the JSON document
  shows for it (mantissa and power of ten).
\<close>

datatype json =
    JNone
  | JBool bool
  | JInt int
  | JFloat int int
  | JStr string
  | JList "json list"
  | JDict "(string \<times> json) list"

text \<open>
  The dictionary \<open>model_info\<close> built by \<open>register_model\<close>; the field names are
  the keys of that dictionary and of the persisted JSON object. \<open>registered_at\<close> is the
  string \<open>datetime.now().isoformat()\<close>.
\<close>

record model_info =
  name :: string
  version :: string
  model_path :: string
  model_type :: string
  metrics :: "(string \<times> json) list"
  metadata :: "(string \<times> json) list"
  registered_at :: string
  status :: string

subsection \<open>Python dictionaries\<close>

text \<open>
  A Python dict keeps its keys in insertion order, and \<open>max\<close> over the keys breaks ties
  by that order, so the registry is an association list. Assigning to a key that is
  present replaces the value where it stands; assigning to a new key appends.
\<close>

type_synonym 'v dict = "(string \<times> 'v) list"

definition dict_get :: "'v dict \<Rightarrow> string \<Rightarrow> 'v option" where
  "dict_get d k = map_of d k"

definition dict_keys :: "'v dict \<Rightarrow> string list" where
  "dict_keys d = map fst d"

fun dict_set :: "string \<Rightarrow> 'v \<Rightarrow> 'v dict \<Rightarrow> 'v dict" where
  "dict_set k v [] = [(k, v)]"
| "dict_set k v ((k', v') # d) =
     (if k' = k then (k, v) # d else (k', v') # dict_set k v d)"

text \<open>\<open>s.startswith(p)\<close>\<close>

fun startswith :: "string \<Rightarrow> string \<Rightarrow> bool" where
  "startswith s [] = True"
| "startswith [] (p # ps) = False"
| "startswith (c # cs) (p # ps) = (c = p \<and> startswith cs ps)"

text \<open>
  \<open>max(xs, key=f)\<close> on a non-empty sequence, given as its first element and the rest:
  the running best is replaced only by a strictly larger key, so among equal keys the
  first one met wins.
\<close>

fun py_max :: "('a \<Rightarrow> 'k::linorder) \<Rightarrow> 'a \<Rightarrow> 'a list \<Rightarrow> 'a" where
  "py_max f best [] = best"
| "py_max f best (x # xs) = py_max f (if f best < f x then x else best) xs"

subsection \<open>The object and the file system\<close>

text \<open>
  A \<open>ModelRegistry\<close> object holds its path and the dictionary \<open>self.registry\<close>. The world
  outside it is the file system (the document stored at each path, if there is one, and
  whether a path can be opened for writing) and standard output.
\<close>

type_synonym registry_dict = "model_info dict"

record ModelRegistry =
  registry_path :: string
  registry :: registry_dict

record world =
  files :: "string \<rightharpoonup> registry_dict"
  writable :: "string \<Rightarrow> bool"
  stdout :: "string list"

datatype error = OSError

text \<open>
  Each method takes the object and the world and returns what the call returned (or the
  exception that left it) together with the object and the world after the call: Python
  keeps the mutations made before an exception.
\<close>

type_synonym 'a outcome = "(error + 'a) \<times> ModelRegistry \<times> world"

definition returned :: "'a outcome \<Rightarrow> error + 'a" where
  "returned r = fst r"

definition self_after :: "'a outcome \<Rightarrow> ModelRegistry" where
  "self_after r = fst (snd r)"

definition world_after :: "'a outcome \<Rightarrow> world" where
  "world_after r = snd (snd r)"

text \<open>\<open>_load_registry\<close>: the document at the path, or the empty dict when there is none.\<close>

definition load_registry :: "string \<Rightarrow> world \<Rightarrow> registry_dict" where
  "load_registry path w = (case files w path of Some d \<Rightarrow> d | None \<Rightarrow> [])"

text \<open>\<open>__init__\<close>: the registry is read once, here. (Directories are not modelled.)\<close>

definition init :: "string \<Rightarrow> world \<Rightarrow> ModelRegistry" where
  "init path w = \<lparr>registry_path = path, registry = load_registry path w\<rparr>"

text \<open>
  \<open>_save_registry\<close>: \<open>open(path, 'w')\<close> raises when the path cannot be written;
  otherwise the whole in-memory dictionary replaces the document.
\<close>

definition save_registry :: "ModelRegistry \<Rightarrow> world \<Rightarrow> (error + unit) \<times> world" where
  "save_registry self w =
     (if writable w (registry_path self)
      then (Inr (), w\<lparr>files := (files w)(registry_path self \<mapsto> registry self)\<rparr>)
      else (Inl OSError, w))"

text \<open>The composite key \<open>f"{name}:{version}"\<close>.\<close>

definition model_key :: "string \<Rightarrow> string \<Rightarrow> string" where
  "model_key nm ver = nm @ '':'' @ ver"

text \<open>
  \<open>register_model\<close>. \<open>now\<close> is the value of \<open>datetime.now().isoformat()\<close> at the call;
  \<open>meta\<close> is the optional \<open>metadata\<close> argument, and \<open>metadata or {}\<close> turns both
  \<open>None\<close> and the empty dict into \<open>{}\<close>.
\<close>

definition register_model ::
  "ModelRegistry \<Rightarrow> world \<Rightarrow> string \<Rightarrow> string \<Rightarrow> string \<Rightarrow> string \<Rightarrow>
   (string \<times> json) list \<Rightarrow> (string \<times> json) list option \<Rightarrow> string \<Rightarrow> unit outcome" where
  "register_model self w nm ver path mtype mtr meta now =
     (let info = \<lparr>name = nm, version = ver, model_path = path, model_type = mtype,
                  metrics = mtr,
                  metadata = (case meta of None \<Rightarrow> [] | Some m \<Rightarrow> m),
                  registered_at = now, status = ''active''\<rparr>;
          key = model_key nm ver;
          self' = self\<lparr>registry := dict_set key info (registry self)\<rparr>
      in case save_registry self' w of
           (Inl e, w') \<Rightarrow> (Inl e, self', w')
         | (Inr _, w') \<Rightarrow>
             (Inr (), self', w'\<lparr>stdout := stdout w' @ [''Registered model '' @ key]\<rparr>))"

text \<open>
  \<open>get_model_info\<close>. With \<open>version == "latest"\<close> the keys that start with
  \<open>name + ":"\<close> are collected in dictionary order and \<open>max\<close> picks the one whose record
  has the largest \<open>registered_at\<close> (strings compare lexicographically); the keys come
  from the dictionary itself, so \<open>self.registry[k]\<close> is the value listed with \<open>k\<close>, and
  the scan runs over the items. Otherwise it is \<open>dict.get\<close> on the composite key.
  The Python \<open>None\<close> result is \<open>None\<close> here.
\<close>

definition get_model_info ::
  "ModelRegistry \<Rightarrow> world \<Rightarrow> string \<Rightarrow> string \<Rightarrow> model_info option outcome" where
  "get_model_info self w nm ver =
     (if ver = ''latest''
      then (case filter (\<lambda>(k, r). startswith k (nm @ '':'')) (registry self) of
              [] \<Rightarrow> (Inr None, self, w)
            | kr # krs \<Rightarrow>
                (Inr (Some (snd (py_max (\<lambda>(k, r). registered_at r) kr krs))), self, w))
      else (Inr (dict_get (registry self) (model_key nm ver)), self, w))"

text \<open>\<open>list_models\<close> returns the in-memory dictionary.\<close>

definition list_models :: "ModelRegistry \<Rightarrow> world \<Rightarrow> registry_dict outcome" where
  "list_models self w = (Inr (registry self), self, w)"

text \<open>
  \<open>update_model_status\<close>: when the key is present, the record's \<open>status\<close> entry is
  assigned and the registry saved; when it is absent, nothing happens at all.
\<close>

definition update_model_status ::
  "ModelRegistry \<Rightarrow> world \<Rightarrow> string \<Rightarrow> string \<Rightarrow> string \<Rightarrow> unit outcome" where
  "update_model_status self w nm ver stat =
     (let key = model_key nm ver
      in case dict_get (registry self) key of
           None \<Rightarrow> (Inr (), self, w)
         | Some info \<Rightarrow>
             (let self' = self\<lparr>registry := dict_set key (info\<lparr>status := stat\<rparr>) (registry self)\<rparr>
              in case save_registry self' w of (r, w') \<Rightarrow> (r, self', w')))"

text \<open>A fresh machine: no document anywhere, every path writable, nothing printed.\<close>

definition fresh_world :: world where
  "fresh_world = \<lparr>files = Map.empty, writable = (\<lambda>p. True), stdout = []\<rparr>"

section \<open>The health check (scripts/docker/health_check.py)\<close>

subsection \<open>Probes and observable events\<close>

text \<open>
  The four \<open>check_*_health\<close> methods ask the outside world a yes/no question. Each is
  given by the answers it will return: \<open>check k\<close> is the result of its call number
  \<open>k\<close>, counted from 0.
\<close>

record HealthChecker =
  check_api_health :: "nat \<Rightarrow> bool"
  check_database_health :: "nat \<Rightarrow> bool"
  check_redis_health :: "nat \<Rightarrow> bool"
  check_models_health :: "nat \<Rightarrow> bool"

text \<open>The dictionary \<open>self.checks\<close> built by \<open>__init__\<close>.\<close>

definition checks :: "HealthChecker \<Rightarrow> (nat \<Rightarrow> bool) dict" where
  "checks self =
     [(''api'', check_api_health self),
      (''database'', check_database_health self),
      (''redis'', check_redis_health self),
      (''models'', check_models_health self)]"

text \<open>
  What a run does to the world, in order: a call of a probe, a line printed, a
  \<open>time.sleep\<close> of so many seconds.
\<close>

datatype event = Invoke | Print string | Sleep nat

fun invocations :: "event list \<Rightarrow> nat" where
  "invocations [] = 0"
| "invocations (Invoke # es) = Suc (invocations es)"
| "invocations (e # es) = invocations es"

fun sleeps :: "event list \<Rightarrow> nat" where
  "sleeps [] = 0"
| "sleeps (Sleep d # es) = Suc (sleeps es)"
| "sleeps (e # es) = sleeps es"

fun slept :: "event list \<Rightarrow> nat" where
  "slept [] = 0"
| "slept (Sleep d # es) = d + slept es"
| "slept (e # es) = slept es"

text \<open>\<open>str(n)\<close> for a non-negative integer, as the f-strings format it.\<close>

definition digit :: "nat \<Rightarrow> char" where
  "digit n = ''0123456789'' ! n"

fun str_nat :: "nat \<Rightarrow> string" where
  "str_nat n = (if n < 10 then [digit n] else str_nat (n div 10) @ [digit (n mod 10)])"

declare str_nat.simps [simp del]

subsection \<open>The retry loop\<close>

text \<open>
  The body of \<open>for attempt in range(max_retries)\<close>, over the attempts that remain.
  The loop calls the probe once per iteration, so the probe's call number is
  \<open>attempt\<close>. A true answer returns at once; a false one prints the failure line and
  sleeps, on every iteration. Running off the end of the range returns \<open>False\<close>.
\<close>

fun retry_loop ::
  "(nat \<Rightarrow> bool) \<Rightarrow> string \<Rightarrow> nat \<Rightarrow> nat \<Rightarrow> nat list \<Rightarrow> bool \<times> event list" where
  "retry_loop check service_type max_retries retry_delay [] = (False, [])"
| "retry_loop check service_type max_retries retry_delay (attempt # rest) =
     (if check attempt
      then (True, [Invoke, Print (service_type @ '' health check passed'')])
      else (case retry_loop check service_type max_retries retry_delay rest of
              (ok, es) \<Rightarrow>
                (ok, Invoke #
                     Print (service_type @ '' health check failed (attempt '' @
                            str_nat (attempt + 1) @ ''/'' @ str_nat max_retries @ '')'') #
                     Sleep retry_delay # es)))"

text \<open>\<open>run_health_check\<close>, with its two local constants.\<close>

definition run_health_check :: "HealthChecker \<Rightarrow> string \<Rightarrow> bool \<times> event list" where
  "run_health_check self service_type =
     (case dict_get (checks self) service_type of
        None \<Rightarrow> (False, [Print (''Unknown service type: '' @ service_type)])
      | Some check \<Rightarrow>
          (let max_retries = 30; retry_delay = 2
           in retry_loop check service_type max_retries retry_delay [0..<max_retries]))"

text \<open>
  The script body: \<open>argv\<close> is \<open>sys.argv\<close>, and the result is the exit status passed to
  \<open>sys.exit\<close> with the events of the run.
\<close>

definition main :: "HealthChecker \<Rightarrow> string list \<Rightarrow> int \<times> event list" where
  "main checker argv =
     (if length argv \<noteq> 2
      then (1, [Print ''Usage: python health_check.py <service_type>'',
                Print ''Service types: api, database, redis, models''])
      else (let service_type = argv ! 1
            in case run_health_check checker service_type of
                 (True, es) \<Rightarrow> (0, es)
               | (False, es) \<Rightarrow>
                   (1, es @ [Print (''Health check failed for '' @ service_type)])))"

text \<open>A checker whose every probe answers as the given function says.\<close>

definition all_probes :: "(nat \<Rightarrow> bool) \<Rightarrow> HealthChecker" where
  "all_probes f =
     \<lparr>check_api_health = f, check_database_health = f,
      check_redis_health = f, check_models_health = f\<rparr>"

section \<open>Example states\<close>

text \<open>
  The default path, and the registry after one call
  \<open>register_model("m", "v1", ...)\<close> on a fresh machine.
\<close>

definition default_path :: string where
  "default_path = ''models/registry.json''"

definition m_v1 :: model_info where
  "m_v1 = \<lparr>name = ''m'', version = ''v1'', model_path = ''models/artifacts/m.pth'',
           model_type = ''classification'', metrics = [(''accuracy'', JFloat 85 (-2))],
           metadata = [], registered_at = ''2024-11-03T01:30:00'', status = ''active''\<rparr>"

definition one_model :: "unit outcome" where
  "one_model =
     register_model (init default_path fresh_world) fresh_world
       ''m'' ''v1'' ''models/artifacts/m.pth'' ''classification''
       [(''accuracy'', JFloat 85 (-2))] None ''2024-11-03T01:30:00''"

text \<open>
  A second version registered later: \<open>register_model("m", "v2", ...)\<close> after
  \<open>m:v1\<close>.
\<close>

definition m_v2 :: model_info where
  "m_v2 = \<lparr>name = ''m'', version = ''v2'', model_path = ''models/artifacts/m2.pth'',
           model_type = ''classification'', metrics = [(''accuracy'', JFloat 90 (-2))],
           metadata = [(''optimizer'', JStr ''AdamW'')],
           registered_at = ''2024-11-04T09:00:00.250000'', status = ''active''\<rparr>"

definition two_versions :: "unit outcome" where
  "two_versions =
     register_model (self_after one_model) (world_after one_model)
       ''m'' ''v2'' ''models/artifacts/m2.pth'' ''classification''
       [(''accuracy'', JFloat 90 (-2))] (Some [(''optimizer'', JStr ''AdamW'')])
       ''2024-11-04T09:00:00.250000''"

text \<open>
  The night the clocks go back. \<open>m:v1\<close> was registered at 01:30 local time; after the
  change to winter time the local clock reads 01:10, and \<open>register_model("m",
  "latest", ...)\<close> is called twice, at 01:10 and at 01:20 (\<open>datetime.now()\<close> is
  the naive local time).
\<close>

definition m_latest :: model_info where
  "m_latest = \<lparr>name = ''m'', version = ''latest'', model_path = ''models/artifacts/m3.pth'',
               model_type = ''classification'', metrics = [(''accuracy'', JFloat 95 (-2))],
               metadata = [], registered_at = ''2024-11-03T01:20:00'', status = ''active''\<rparr>"

definition clocks_back_1 :: "unit outcome" where
  "clocks_back_1 =
     register_model (self_after one_model) (world_after one_model)
       ''m'' ''latest'' ''models/artifacts/m3.pth'' ''classification''
       [(''accuracy'', JFloat 93 (-2))] None ''2024-11-03T01:10:00''"

definition clocks_back_2 :: "unit outcome" where
  "clocks_back_2 =
     register_model (self_after clocks_back_1) (world_after clocks_back_1)
       ''m'' ''latest'' ''models/artifacts/m3.pth'' ''classification''
       [(''accuracy'', JFloat 95 (-2))] None ''2024-11-03T01:20:00''"

text \<open>A model whose name contains a colon, registered with the version \<open>"latest"\<close>.\<close>

definition ab_latest :: model_info where
  "ab_latest = \<lparr>name = ''a:b'', version = ''latest'', model_path = ''models/artifacts/ab.pkl'',
                model_type = ''detection'', metrics = [], metadata = [],
                registered_at = ''2024-11-03T01:30:00'', status = ''active''\<rparr>"

definition colon_name :: "unit outcome" where
  "colon_name =
     register_model (init default_path fresh_world) fresh_world
       ''a:b'' ''latest'' ''models/artifacts/ab.pkl'' ''detection'' [] None
       ''2024-11-03T01:30:00''"




section \<open>Facts about the dictionary operations\<close>

lemma dict_get_set: "dict_get (dict_set k v d) k' = (if k' = k then Some v else dict_get d k')"
  by (induction d) (auto simp: dict_get_def)

lemma dict_keys_set:
  "dict_keys (dict_set k v d) = (if k \<in> set (dict_keys d) then dict_keys d else dict_keys d @ [k])"
  by (induction d) (force simp: dict_keys_def)+

lemma set_dict_set: "set (dict_set k v d) \<subseteq> insert (k, v) (set d)"
  by (induction d) (auto split: if_splits)

lemma in_dict_set: "(k, v) \<in> set (dict_set k v d)"
  by (induction d) auto


lemma dict_get_None_keys: "dict_get d k = None \<longleftrightarrow> k \<notin> set (dict_keys d)"
  by (simp add: dict_get_def dict_keys_def map_of_eq_None_iff)

lemma startswith_iff: "startswith s p \<longleftrightarrow> (\<exists>t. s = p @ t)"
  by (induction s p rule: startswith.induct) auto

lemma py_max_in: "py_max f b xs \<in> set (b # xs)"
  by (induction xs arbitrary: b) (auto split: if_splits)

lemma py_max_ge: "y \<in> set (b # xs) \<Longrightarrow> f y \<le> f (py_max f b xs)"
proof (induction xs arbitrary: b y)
  case Nil
  then show ?case by simp
next
  case (Cons x xs)
  let ?b = "if f b < f x then x else b"
  have step: "f z \<le> f (py_max f ?b xs)" if "z \<in> set (?b # xs)" for z
    using Cons.IH that by blast
  have "f b \<le> f ?b" "f x \<le> f ?b" by auto
  moreover have "f ?b \<le> f (py_max f ?b xs)" by (rule step) simp
  ultimately have "f b \<le> f (py_max f ?b xs)" "f x \<le> f (py_max f ?b xs)"
    by (meson order_trans)+
  with Cons.prems step show ?case by auto
qed

lemma py_max_strict:
  "x \<in> set (b # xs) \<Longrightarrow> \<forall>y \<in> set (b # xs). y \<noteq> x \<longrightarrow> f y < f x \<Longrightarrow> py_max f b xs = x"
proof (induction xs arbitrary: b)
  case Nil
  then show ?case by simp
next
  case (Cons a xs)
  let ?b = "if f b < f a then a else b"
  have "x \<in> set (?b # xs)"
    using Cons.prems by (auto split: if_splits dest: less_asym)
  moreover have "\<forall>y \<in> set (?b # xs). y \<noteq> x \<longrightarrow> f y < f x"
    using Cons.prems(2) by auto
  ultimately have "py_max f ?b xs = x" by (rule Cons.IH)
  then show ?case by simp
qed

lemma py_max_first:
  "\<exists>ys zs. b # xs = ys @ py_max f b xs # zs \<and>
           (\<forall>y \<in> set ys. f y < f (py_max f b xs)) \<and>
           (\<forall>z \<in> set zs. f z \<le> f (py_max f b xs))"
proof (induction xs arbitrary: b)
  case Nil
  have "[b] = [] @ py_max f b [] # []" by simp
  then show ?case by (metis empty_iff list.set(1))
next
  case (Cons x xs)
  show ?case
  proof (cases "f b < f x")
    case True
    define m where "m = py_max f x xs"
    have res: "py_max f b (x # xs) = m" using True by (simp add: m_def)
    from Cons.IH [of x] obtain ys zs where
      sp: "x # xs = ys @ m # zs" and
      before: "\<forall>y \<in> set ys. f y < f m" and
      after: "\<forall>z \<in> set zs. f z \<le> f m"
      unfolding m_def by blast
    have "f x \<le> f m" unfolding m_def by (rule py_max_ge) simp
    with True have "f b < f m" by simp
    with before have "\<forall>y \<in> set (b # ys). f y < f m" by simp
    moreover have "b # x # xs = (b # ys) @ m # zs" using sp by simp
    ultimately show ?thesis using after unfolding res by blast
  next
    case False
    define m where "m = py_max f b xs"
    have res: "py_max f b (x # xs) = m" using False by (simp add: m_def)
    from Cons.IH [of b] obtain ys zs where
      sp: "b # xs = ys @ m # zs" and
      before: "\<forall>y \<in> set ys. f y < f m" and
      after: "\<forall>z \<in> set zs. f z \<le> f m"
      unfolding m_def by blast
    show ?thesis
    proof (cases ys)
      case Nil
      with sp have mb: "m = b" and zs: "zs = xs" by simp_all
      have "f x \<le> f m" using False mb by simp
      with after have "\<forall>z \<in> set (x # zs). f z \<le> f m" by simp
      moreover have "b # x # xs = [] @ m # (x # zs)" using mb zs by simp
      moreover have "\<forall>y \<in> set []. f y < f m" by simp
      ultimately show ?thesis unfolding res by blast
    next
      case (Cons y ys')
      with sp have yb: "y = b" and xs: "xs = ys' @ m # zs" by simp_all
      have "f b < f m" using before Cons yb by simp
      with False have "f x < f m" by simp
      with before Cons yb have "\<forall>y \<in> set (b # x # ys'). f y < f m" by simp
      moreover have "b # x # xs = (b # x # ys') @ m # zs" using xs by simp
      ultimately show ?thesis using after unfolding res by blast
    qed
  qed
qed

lemma one_model_eq:
  "one_model =
     (Inr (), \<lparr>registry_path = default_path, registry = [(''m:v1'', m_v1)]\<rparr>,
      \<lparr>files = [default_path \<mapsto> [(''m:v1'', m_v1)]], writable = (\<lambda>p. True),
       stdout = [''Registered model m:v1'']\<rparr>)"
  by (simp add: one_model_def register_model_def init_def load_registry_def fresh_world_def
                save_registry_def model_key_def m_v1_def Let_def)

section \<open>The registry: status updates\<close>

text \<open>
  C1, as the code has it. When no record is stored under the key \<open>name:version\<close>,
  \<open>update_model_status\<close> returns normally: it raises nothing, creates no record, and
  leaves the in-memory registry, the persisted documents and standard output as they
  were.
\<close>

theorem update_status_missing:
  "dict_get (registry self) (model_key nm ver) = None \<Longrightarrow>
   update_model_status self w nm ver stat = (Inr (), self, w)"
  by (simp add: update_model_status_def)

theorem update_status_missing_witness:
  "dict_get (registry (self_after one_model)) (model_key ''missing'' ''v1'') = None \<and>
   update_model_status (self_after one_model) (world_after one_model)
       ''missing'' ''v1'' ''archived''
     = (Inr (), self_after one_model, world_after one_model)"
proof -
  have h: "dict_get (registry (self_after one_model)) (model_key ''missing'' ''v1'') = None"
    by (simp add: one_model_eq self_after_def dict_get_def model_key_def)
  show ?thesis
    using h update_status_missing [OF h] by simp
qed

text \<open>
  C1 as the specification words it fails: on a registry that holds only \<open>m:v1\<close>, the
  call \<open>update_model_status("missing", "v1", "archived")\<close> does not fail.
\<close>

theorem update_status_missing_counterexample:
  "returned (update_model_status (self_after one_model) (world_after one_model)
               ''missing'' ''v1'' ''archived'') = Inr () \<and>
   \<not> isl (returned (update_model_status (self_after one_model) (world_after one_model)
                      ''missing'' ''v1'' ''archived''))"
  by (simp add: update_model_status_def one_model_eq self_after_def world_after_def
                returned_def dict_get_def model_key_def)




section \<open>The registry: reads\<close>

text \<open>
  C3, as the code has it. The object keeps the dictionary it loaded in \<open>__init__\<close>, and
  \<open>get_model_info\<close> and \<open>list_models\<close> answer from that copy alone: whatever the
  documents on disk are at the time of the call, the answer is the same, and
  \<open>list_models\<close> is the in-memory dictionary.
\<close>

theorem reads_ignore_the_store:
  "returned (get_model_info self w nm ver) = returned (get_model_info self w' nm ver) \<and>
   returned (list_models self w) = Inr (registry self) \<and>
   returned (list_models self w') = Inr (registry self)"
  by (simp add: get_model_info_def list_models_def returned_def split: list.splits)

theorem reads_ignore_the_store_witness:
  "returned (get_model_info (init default_path fresh_world) fresh_world ''m'' ''v1'')
     = returned (get_model_info (init default_path fresh_world) (world_after one_model) ''m'' ''v1'') \<and>
   returned (list_models (init default_path fresh_world) (world_after one_model)) = Inr []"
  using reads_ignore_the_store
          [of "init default_path fresh_world" fresh_world "''m''" "''v1''" "world_after one_model"]
  by (simp add: init_def load_registry_def fresh_world_def)

text \<open>
  C3 as the specification words it fails. Two objects are built on a fresh machine, and
  one of them registers \<open>m:v1\<close>. The document on disk now holds the record, and the
  writer reads it back; the other object, reading after the document changed, still
  answers from its empty copy.
\<close>

theorem stale_read_counterexample:
  "files (world_after one_model) default_path = Some [(''m:v1'', m_v1)] \<and>
   returned (get_model_info (self_after one_model) (world_after one_model) ''m'' ''v1'')
     = Inr (Some m_v1) \<and>
   returned (get_model_info (init default_path fresh_world) (world_after one_model) ''m'' ''v1'')
     = Inr None \<and>
   returned (get_model_info (init default_path fresh_world) (world_after one_model) ''m'' ''latest'')
     = Inr None \<and>
   returned (list_models (init default_path fresh_world) (world_after one_model)) = Inr []"
  by (simp add: one_model_eq self_after_def world_after_def get_model_info_def list_models_def
                returned_def init_def load_registry_def fresh_world_def dict_get_def model_key_def)

text \<open>
  C9. \<open>get_model_info\<close>, for every name and every version argument (\<open>"latest"\<close>
  among them), and \<open>list_models\<close> leave the object and the world exactly as they found
  them.
\<close>

theorem reads_change_nothing:
  "self_after (get_model_info self w nm ver) = self \<and>
   world_after (get_model_info self w nm ver) = w \<and>
   self_after (list_models self w) = self \<and>
   world_after (list_models self w) = w"
  by (simp add: get_model_info_def list_models_def self_after_def world_after_def
           split: list.splits)

theorem reads_change_nothing_witness:
  "self_after (get_model_info (self_after one_model) (world_after one_model) ''m'' ''latest'')
     = self_after one_model \<and>
   world_after (get_model_info (self_after one_model) (world_after one_model) ''m'' ''latest'')
     = world_after one_model \<and>
   self_after (list_models (self_after one_model) (world_after one_model)) = self_after one_model \<and>
   world_after (list_models (self_after one_model) (world_after one_model)) = world_after one_model"
  using reads_change_nothing [of "self_after one_model" "world_after one_model" "''m''" "''latest''"]
  by simp

section \<open>Facts about registering and resolving\<close>

lemma startswith_model_key: "startswith (model_key nm ver) (nm @ '':'')"
  by (simp add: startswith_iff model_key_def)

lemma get_latest_None:
  assumes "\<forall>k \<in> set (dict_keys (registry self)). \<not> startswith k (nm @ '':'')"
  shows "returned (get_model_info self w nm ''latest'') = Inr None"
proof -
  have "filter (\<lambda>(k, r). startswith k (nm @ '':'')) (registry self) = []"
    using assms by (auto simp: filter_empty_conv dict_keys_def)
  then show ?thesis by (simp add: get_model_info_def returned_def)
qed

lemma get_latest_Some:
  assumes "(k0, r0) \<in> set (registry self)" and "startswith k0 (nm @ '':'')"
  shows "\<exists>k r. (k, r) \<in> set (registry self) \<and> startswith k (nm @ '':'') \<and>
               returned (get_model_info self w nm ''latest'') = Inr (Some r) \<and>
               (\<forall>(k', r') \<in> set (registry self).
                   startswith k' (nm @ '':'') \<longrightarrow> registered_at r' \<le> registered_at r)"
proof -
  let ?P = "\<lambda>(k, r). startswith k (nm @ '':'')"
  let ?f = "\<lambda>(k :: string, r). registered_at r"
  have "(k0, r0) \<in> set (filter ?P (registry self))" using assms by simp
  then obtain kr krs where split: "filter ?P (registry self) = kr # krs"
    by (cases "filter ?P (registry self)") auto
  obtain k r where best: "py_max ?f kr krs = (k, r)" by (cases "py_max ?f kr krs")
  have "(k, r) \<in> set (filter ?P (registry self))"
    using py_max_in [of ?f kr krs] by (simp only: split best)
  then have mem: "(k, r) \<in> set (registry self)" and pre: "startswith k (nm @ '':'')"
    by auto
  have ret: "returned (get_model_info self w nm ''latest'') = Inr (Some r)"
    by (simp add: get_model_info_def returned_def split best)
  have "registered_at r' \<le> registered_at r"
    if "(k', r') \<in> set (registry self)" "startswith k' (nm @ '':'')" for k' r'
  proof -
    have "(k', r') \<in> set (kr # krs)" using that split [symmetric] by simp
    from py_max_ge [OF this, of ?f] show ?thesis by (simp add: best)
  qed
  with mem pre ret show ?thesis by blast
qed

lemma get_latest_first:
  assumes "(k0, r0) \<in> set (registry self)" and "startswith k0 (nm @ '':'')"
  shows "\<exists>k r ys zs.
           filter (\<lambda>(k, r). startswith k (nm @ '':'')) (registry self) = ys @ (k, r) # zs \<and>
           returned (get_model_info self w nm ''latest'') = Inr (Some r) \<and>
           (\<forall>(k', r') \<in> set ys. registered_at r' < registered_at r) \<and>
           (\<forall>(k', r') \<in> set zs. registered_at r' \<le> registered_at r)"
proof -
  let ?P = "\<lambda>(k, r). startswith k (nm @ '':'')"
  let ?f = "\<lambda>(k :: string, r). registered_at r"
  have "(k0, r0) \<in> set (filter ?P (registry self))" using assms by simp
  then obtain kr krs where split: "filter ?P (registry self) = kr # krs"
    by (cases "filter ?P (registry self)") auto
  obtain k r where best: "py_max ?f kr krs = (k, r)" by (cases "py_max ?f kr krs")
  from py_max_first [of kr krs ?f] obtain ys zs where
    "kr # krs = ys @ (k, r) # zs" and
    "\<forall>y \<in> set ys. ?f y < ?f (k, r)" and "\<forall>z \<in> set zs. ?f z \<le> ?f (k, r)"
    unfolding best by blast
  moreover have "returned (get_model_info self w nm ''latest'') = Inr (Some r)"
    by (simp add: get_model_info_def returned_def split best)
  ultimately show ?thesis
    unfolding split by (intro exI [of _ k] exI [of _ r] exI [of _ ys] exI [of _ zs]) auto
qed

lemma registry_after_register:
  "registry (self_after (register_model self w nm ver path mtype mtr meta now)) =
     dict_set (model_key nm ver)
       \<lparr>name = nm, version = ver, model_path = path, model_type = mtype, metrics = mtr,
        metadata = (case meta of None \<Rightarrow> [] | Some m \<Rightarrow> m), registered_at = now,
        status = ''active''\<rparr> (registry self)"
  by (simp add: register_model_def self_after_def Let_def save_registry_def)

lemma get_latest_strict:
  assumes "(k, r) \<in> set (registry self)" and "startswith k (nm @ '':'')"
      and "\<forall>(k', r') \<in> set (registry self).
              startswith k' (nm @ '':'') \<longrightarrow> (k', r') \<noteq> (k, r) \<longrightarrow> registered_at r' < registered_at r"
  shows "returned (get_model_info self w nm ''latest'') = Inr (Some r)"
proof -
  let ?P = "\<lambda>(k, r). startswith k (nm @ '':'')"
  let ?f = "\<lambda>(k :: string, r). registered_at r"
  have "(k, r) \<in> set (filter ?P (registry self))" using assms by simp
  then obtain kr krs where split: "filter ?P (registry self) = kr # krs"
    by (cases "filter ?P (registry self)") auto
  have in1: "(k, r) \<in> set (kr # krs)" using assms split [symmetric] by simp
  have "\<forall>y \<in> set (kr # krs). y \<noteq> (k, r) \<longrightarrow> ?f y < ?f (k, r)"
  proof (intro ballI impI)
    fix y assume "y \<in> set (kr # krs)" "y \<noteq> (k, r)"
    then have "y \<in> set (registry self)" "?P y" using split [symmetric] by auto
    with assms(3) \<open>y \<noteq> (k, r)\<close> show "?f y < ?f (k, r)" by (cases y) auto
  qed
  from py_max_strict [OF in1 this] show ?thesis
    by (simp add: get_model_info_def returned_def split)
qed

lemma get_latest_after_register:
  assumes "\<forall>(k, r) \<in> set (registry self). startswith k (nm @ '':'') \<longrightarrow> registered_at r < now"
  shows "returned (get_model_info (self_after (register_model self w nm ver path mtype mtr meta now)) w' nm ''latest'')
         = Inr (Some \<lparr>name = nm, version = ver, model_path = path, model_type = mtype, metrics = mtr,
                metadata = (case meta of None \<Rightarrow> [] | Some m \<Rightarrow> m), registered_at = now,
                status = ''active''\<rparr>)"
proof (rule get_latest_strict [where k = "model_key nm ver"])
  let ?rec = "\<lparr>name = nm, version = ver, model_path = path, model_type = mtype, metrics = mtr,
                metadata = (case meta of None \<Rightarrow> [] | Some m \<Rightarrow> m), registered_at = now,
                status = ''active''\<rparr>"
  let ?self' = "self_after (register_model self w nm ver path mtype mtr meta now)"
  show "(model_key nm ver, ?rec) \<in> set (registry ?self')"
    by (simp add: registry_after_register in_dict_set)
  show "startswith (model_key nm ver) (nm @ '':'')" by (rule startswith_model_key)
  show "\<forall>(k', r') \<in> set (registry ?self'). startswith k' (nm @ '':'') \<longrightarrow>
           (k', r') \<noteq> (model_key nm ver, ?rec) \<longrightarrow> registered_at r' < registered_at ?rec"
    using assms set_dict_set [of "model_key nm ver" ?rec "registry self"]
    by (auto simp: registry_after_register)
qed


lemma model_key_latest_only:
  assumes "CHR '':'' \<notin> set nm" and "ver' \<noteq> ''latest''"
  shows "model_key nm' ver' \<noteq> model_key nm ''latest''"
proof
  assume "model_key nm' ver' = model_key nm ''latest''"
  then have eq: "nm' @ CHR '':'' # ver' = nm @ CHR '':'' # ''latest''"
    by (simp add: model_key_def)
  then consider us where "nm' = nm @ us" "us @ CHR '':'' # ver' = CHR '':'' # ''latest''"
    | us where "nm' @ us = nm" "CHR '':'' # ver' = us @ CHR '':'' # ''latest''"
    by (auto simp: append_eq_append_conv2)
  then show False
  proof cases
    case 1
    show False
    proof (cases us)
      case Nil
      with 1 assms(2) show False by simp
    next
      case (Cons c us')
      with 1 have "us' @ CHR '':'' # ver' = ''latest''" by simp
      then have "CHR '':'' \<in> set ''latest''" by (metis in_set_conv_decomp)
      then show False by simp
    qed
  next
    case 2
    show False
    proof (cases us)
      case Nil
      with 2 assms(2) show False by simp
    next
      case (Cons c us')
      with 2 have "c = CHR '':''" by simp
      with 2 Cons have "CHR '':'' \<in> set nm" by auto
      with assms(1) show False by simp
    qed
  qed
qed

lemma two_versions_eq:
  "two_versions =
     (Inr (), \<lparr>registry_path = default_path, registry = [(''m:v1'', m_v1), (''m:v2'', m_v2)]\<rparr>,
      \<lparr>files = [default_path \<mapsto> [(''m:v1'', m_v1), (''m:v2'', m_v2)]], writable = (\<lambda>p. True),
       stdout = [''Registered model m:v1'', ''Registered model m:v2'']\<rparr>)"
  by (simp add: two_versions_def one_model_eq register_model_def self_after_def world_after_def
                save_registry_def model_key_def m_v2_def Let_def)

lemma clocks_back_2_eq:
  "clocks_back_2 =
     (Inr (), \<lparr>registry_path = default_path, registry = [(''m:v1'', m_v1), (''m:latest'', m_latest)]\<rparr>,
      \<lparr>files = [default_path \<mapsto> [(''m:v1'', m_v1), (''m:latest'', m_latest)]],
       writable = (\<lambda>p. True),
       stdout = [''Registered model m:v1'', ''Registered model m:latest'',
                 ''Registered model m:latest'']\<rparr>)"
  by (simp add: clocks_back_2_def clocks_back_1_def one_model_eq register_model_def self_after_def
                world_after_def save_registry_def model_key_def m_latest_def Let_def)

lemma colon_name_eq:
  "colon_name =
     (Inr (), \<lparr>registry_path = default_path, registry = [(''a:b:latest'', ab_latest)]\<rparr>,
      \<lparr>files = [default_path \<mapsto> [(''a:b:latest'', ab_latest)]], writable = (\<lambda>p. True),
       stdout = [''Registered model a:b:latest'']\<rparr>)"
  by (simp add: colon_name_def register_model_def init_def load_registry_def fresh_world_def
                save_registry_def model_key_def ab_latest_def Let_def)


lemma dict_set_twice: "dict_set k v' (dict_set k v d) = dict_set k v' d"
  by (induction d) auto

lemma returned_register:
  "writable w (registry_path self) \<Longrightarrow>
   returned (register_model self w nm ver path mtype mtr meta now) = Inr ()"
  by (simp add: register_model_def returned_def save_registry_def Let_def)

lemma path_after_register:
  "registry_path (self_after (register_model self w nm ver path mtype mtr meta now)) = registry_path self"
  by (simp add: register_model_def self_after_def save_registry_def Let_def)

lemma world_after_register:
  "writable w (registry_path self) \<Longrightarrow>
   world_after (register_model self w nm ver path mtype mtr meta now) =
     w\<lparr>files := (files w)(registry_path self \<mapsto>
                     registry (self_after (register_model self w nm ver path mtype mtr meta now))),
       stdout := stdout w @ [''Registered model '' @ model_key nm ver]\<rparr>"
  by (simp add: register_model_def world_after_def self_after_def save_registry_def Let_def)

section \<open>The registry: resolving "latest"\<close>




section \<open>The registry: registering the same pair twice\<close>

lemma self_after_register:
  "self_after (register_model self w nm ver path mtype mtr meta now) =
     self\<lparr>registry := dict_set (model_key nm ver)
        \<lparr>name = nm, version = ver, model_path = path, model_type = mtype, metrics = mtr,
         metadata = (case meta of None \<Rightarrow> [] | Some m \<Rightarrow> m), registered_at = now,
         status = ''active''\<rparr> (registry self)\<rparr>"
  by (simp add: register_model_def self_after_def Let_def save_registry_def)

lemma writable_after_register:
  "writable (world_after (register_model self w nm ver path mtype mtr meta now)) = writable w"
  by (simp add: register_model_def world_after_def Let_def save_registry_def)

text \<open>
  C7, as the code has it. With a writable store, registering the same
  \<open>(name, version)\<close> twice raises nothing and prints the same line both times; the
  registry and the saved document are then what the second call alone would have left:
  one entry under the key, holding the second call's metrics, metadata and timestamp.
  \<open>get_model_info(name, version)\<close> returns that record whenever \<open>version\<close> is not
  \<open>"latest"\<close>; for \<open>"latest"\<close> it does so when every record the registry held under
  that name carries an older timestamp than the second call's.
\<close>

theorem register_twice_overwrites:
  assumes "writable w (registry_path self)"
  shows "let r1 = register_model self w nm ver p1 ty1 mtr1 meta1 t1;
             r2 = register_model (self_after r1) (world_after r1) nm ver p2 ty2 mtr2 meta2 t2;
             info2 = \<lparr>name = nm, version = ver, model_path = p2, model_type = ty2,
                      metrics = mtr2,
                      metadata = (case meta2 of None \<Rightarrow> [] | Some m \<Rightarrow> m),
                      registered_at = t2, status = ''active''\<rparr>
         in returned r1 = Inr () \<and> returned r2 = Inr () \<and>
            dict_get (registry (self_after r2)) (model_key nm ver) = Some info2 \<and>
            self_after r2 = self_after (register_model self w nm ver p2 ty2 mtr2 meta2 t2) \<and>
            dict_keys (registry (self_after r2)) = dict_keys (registry (self_after r1)) \<and>
            files (world_after r2) (registry_path self) = Some (registry (self_after r2)) \<and>
            stdout (world_after r2) =
              stdout w @ [''Registered model '' @ model_key nm ver,
                          ''Registered model '' @ model_key nm ver] \<and>
            (ver \<noteq> ''latest'' \<longrightarrow>
               returned (get_model_info (self_after r2) (world_after r2) nm ver) = Inr (Some info2)) \<and>
            ((\<forall>(k, r) \<in> set (registry self).
                 startswith k (nm @ '':'') \<longrightarrow> registered_at r < t2) \<longrightarrow>
               returned (get_model_info (self_after r2) (world_after r2) nm ''latest'')
                 = Inr (Some info2))"
proof -
  let ?r1 = "register_model self w nm ver p1 ty1 mtr1 meta1 t1"
  let ?r2 = "register_model (self_after ?r1) (world_after ?r1) nm ver p2 ty2 mtr2 meta2 t2"
  let ?only2 = "register_model self w nm ver p2 ty2 mtr2 meta2 t2"
  let ?info2 = "\<lparr>name = nm, version = ver, model_path = p2, model_type = ty2,
                 metrics = mtr2,
                 metadata = (case meta2 of None \<Rightarrow> [] | Some m \<Rightarrow> m),
                 registered_at = t2, status = ''active''\<rparr>"
  have w1: "writable (world_after ?r1) (registry_path (self_after ?r1))"
    using assms by (simp add: writable_after_register path_after_register)
  have ret1: "returned ?r1 = Inr ()" using assms by (rule returned_register)
  have ret2: "returned ?r2 = Inr ()" using w1 by (rule returned_register)
  have same: "self_after ?r2 = self_after ?only2"
    by (simp add: self_after_register dict_set_twice)
  have stored: "dict_get (registry (self_after ?r2)) (model_key nm ver) = Some ?info2"
    by (simp add: registry_after_register dict_get_set)
  have keys: "dict_keys (registry (self_after ?r2)) = dict_keys (registry (self_after ?r1))"
    by (simp add: registry_after_register [of "self_after ?r1"] dict_keys_set)
       (simp add: registry_after_register dict_keys_set)
  have saved: "files (world_after ?r2) (registry_path self) = Some (registry (self_after ?r2))"
    by (simp only: world_after_register [OF w1]) (simp add: path_after_register)
  have printed: "stdout (world_after ?r2) =
                   stdout w @ [''Registered model '' @ model_key nm ver,
                               ''Registered model '' @ model_key nm ver]"
    by (simp only: world_after_register [OF w1]) (simp add: world_after_register [OF assms])
  have exact: "returned (get_model_info (self_after ?r2) (world_after ?r2) nm ver) = Inr (Some ?info2)"
    if "ver \<noteq> ''latest''"
    using that stored by (simp add: get_model_info_def returned_def)
  have latest: "returned (get_model_info (self_after ?r2) (world_after ?r2) nm ''latest'')
                  = Inr (Some ?info2)"
    if "\<forall>(k, r) \<in> set (registry self). startswith k (nm @ '':'') \<longrightarrow> registered_at r < t2"
    using get_latest_after_register [OF that, of w ver p2 ty2 mtr2 meta2 "world_after ?r2"]
    by (simp only: same)
  show ?thesis
    unfolding Let_def
    using ret1 ret2 stored same keys saved printed exact latest by blast
qed

theorem register_twice_overwrites_witness:
  "writable (world_after one_model) (registry_path (self_after one_model)) \<and>
   returned two_versions = Inr () \<and>
   returned (register_model (self_after two_versions) (world_after two_versions)
               ''m'' ''v2'' ''models/artifacts/m2b.pth'' ''classification''
               [(''f1_score'', JFloat 83 (-2))] None ''2024-11-05T10:00:00'') = Inr () \<and>
   returned (get_model_info
      (self_after (register_model (self_after two_versions) (world_after two_versions)
               ''m'' ''v2'' ''models/artifacts/m2b.pth'' ''classification''
               [(''f1_score'', JFloat 83 (-2))] None ''2024-11-05T10:00:00''))
      (world_after (register_model (self_after two_versions) (world_after two_versions)
               ''m'' ''v2'' ''models/artifacts/m2b.pth'' ''classification''
               [(''f1_score'', JFloat 83 (-2))] None ''2024-11-05T10:00:00''))
      ''m'' ''v2'')
    = Inr (Some \<lparr>name = ''m'', version = ''v2'', model_path = ''models/artifacts/m2b.pth'',
                 model_type = ''classification'', metrics = [(''f1_score'', JFloat 83 (-2))],
                 metadata = [], registered_at = ''2024-11-05T10:00:00'', status = ''active''\<rparr>)"
proof -
  have h: "writable (world_after one_model) (registry_path (self_after one_model))"
    by (simp add: one_model_eq world_after_def)
  show ?thesis
    using h register_twice_overwrites [OF h, of "''m''" "''v2''"
            "''models/artifacts/m2.pth''" "''classification''"
            "[(''accuracy'', JFloat 90 (-2))]" "Some [(''optimizer'', JStr ''AdamW'')]"
            "''2024-11-04T09:00:00.250000''"
            "''models/artifacts/m2b.pth''" "''classification''"
            "[(''f1_score'', JFloat 83 (-2))]" None "''2024-11-05T10:00:00''"]
    by (simp add: Let_def two_versions_eq one_model_eq register_model_def save_registry_def
                  self_after_def world_after_def returned_def get_model_info_def dict_get_def
                  model_key_def)
qed

text \<open>
  C7 as the specification words it fails for the version \<open>"latest"\<close>. With \<open>m:v1\<close>
  registered at 01:30 and \<open>("m", "latest")\<close> registered twice after the clock went
  back, at 01:10 and 01:20, all three calls succeed, the key \<open>m:latest\<close> holds the
  second call's record, and yet \<open>get_model_info("m", "latest")\<close> returns the \<open>v1\<close>
  record, with the metrics and the timestamp of neither call.
\<close>

theorem register_twice_latest_counterexample:
  "returned one_model = Inr () \<and> returned clocks_back_1 = Inr () \<and>
   returned clocks_back_2 = Inr () \<and>
   dict_get (registry (self_after clocks_back_2)) (model_key ''m'' ''latest'') = Some m_latest \<and>
   returned (get_model_info (self_after clocks_back_2) (world_after clocks_back_2) ''m'' ''latest'')
     = Inr (Some m_v1) \<and>
   metrics m_v1 \<noteq> metrics m_latest \<and>
   registered_at m_v1 \<noteq> ''2024-11-03T01:20:00''"
  by (simp add: clocks_back_2_eq clocks_back_2_def [symmetric] one_model_eq returned_def
                self_after_def world_after_def get_model_info_def dict_get_def model_key_def
                m_v1_def m_latest_def clocks_back_1_def register_model_def save_registry_def
                Let_def)

section \<open>The registry: the version "latest"\<close>

text \<open>
  C10, as the code has it. \<open>"latest"\<close> is a reserved version argument of
  \<open>get_model_info\<close> alone. There it always starts the scan by timestamp over the keys
  with prefix \<open>name:\<close>: \<open>None\<close> when there is none, otherwise the first record in
  dictionary order with maximal \<open>registered_at\<close>; so when the registry holds a record
  under \<open>name:latest\<close> and a record with a later timestamp under another key with that
  prefix, the answer is not the record under \<open>name:latest\<close>. Every other version
  argument makes \<open>get_model_info\<close> look up exactly the composite key of its arguments;
  under the same name that key is never \<open>name:latest\<close>, and for a name without a
  colon no pair of arguments has that key. \<open>register_model\<close> and
  \<open>update_model_status\<close> have no such case: with the version \<open>"latest"\<close> they store
  and update the record under the key \<open>name:latest\<close>.
\<close>

theorem latest_is_reserved:
  "((\<forall>k \<in> set (dict_keys (registry self)). \<not> startswith k (nm @ '':'')) \<longrightarrow>
      returned (get_model_info self w nm ''latest'') = Inr None) \<and>
   ((\<exists>k \<in> set (dict_keys (registry self)). startswith k (nm @ '':'')) \<longrightarrow>
      (\<exists>k r ys zs.
          filter (\<lambda>(k, r). startswith k (nm @ '':'')) (registry self) = ys @ (k, r) # zs \<and>
          returned (get_model_info self w nm ''latest'') = Inr (Some r) \<and>
          (\<forall>(k', r') \<in> set ys. registered_at r' < registered_at r) \<and>
          (\<forall>(k', r') \<in> set zs. registered_at r' \<le> registered_at r))) \<and>
   (dict_get (registry self) (model_key nm ''latest'') = Some rl \<longrightarrow>
    (k, r) \<in> set (registry self) \<longrightarrow> startswith k (nm @ '':'') \<longrightarrow>
    registered_at rl < registered_at r \<longrightarrow>
      (\<exists>r'. returned (get_model_info self w nm ''latest'') = Inr (Some r') \<and>
            r' \<noteq> rl \<and> registered_at rl < registered_at r')) \<and>
   (ver \<noteq> ''latest'' \<longrightarrow>
      returned (get_model_info self w nm' ver) = Inr (dict_get (registry self) (model_key nm' ver))) \<and>
   (ver \<noteq> ''latest'' \<longrightarrow> model_key nm ver \<noteq> model_key nm ''latest'') \<and>
   (CHR '':'' \<notin> set nm \<longrightarrow> ver \<noteq> ''latest'' \<longrightarrow> model_key nm' ver \<noteq> model_key nm ''latest'') \<and>
   dict_get (registry (self_after (register_model self w nm ''latest'' path mtype mtr meta now)))
       (model_key nm ''latest'')
     = Some \<lparr>name = nm, version = ''latest'', model_path = path, model_type = mtype,
             metrics = mtr, metadata = (case meta of None \<Rightarrow> [] | Some m \<Rightarrow> m),
             registered_at = now, status = ''active''\<rparr> \<and>
   (dict_get (registry self) (model_key nm ''latest'') = Some rl \<longrightarrow>
      dict_get (registry (self_after (update_model_status self w nm ''latest'' stat)))
          (model_key nm ''latest'')
        = Some (rl\<lparr>status := stat\<rparr>))"
proof (intro conjI impI)
  assume "\<forall>k \<in> set (dict_keys (registry self)). \<not> startswith k (nm @ '':'')"
  then show "returned (get_model_info self w nm ''latest'') = Inr None"
    by (rule get_latest_None)
next
  assume "\<exists>k \<in> set (dict_keys (registry self)). startswith k (nm @ '':'')"
  then obtain k0 r0 where "(k0, r0) \<in> set (registry self)" "startswith k0 (nm @ '':'')"
    by (auto simp: dict_keys_def)
  then show "\<exists>k r ys zs.
          filter (\<lambda>(k, r). startswith k (nm @ '':'')) (registry self) = ys @ (k, r) # zs \<and>
          returned (get_model_info self w nm ''latest'') = Inr (Some r) \<and>
          (\<forall>(k', r') \<in> set ys. registered_at r' < registered_at r) \<and>
          (\<forall>(k', r') \<in> set zs. registered_at r' \<le> registered_at r)"
    by (rule get_latest_first)
next
  assume mem: "(k, r) \<in> set (registry self)" and pre: "startswith k (nm @ '':'')"
     and later: "registered_at rl < registered_at r"
  from get_latest_Some [OF mem pre, of w]
  obtain k' r' where ret: "returned (get_model_info self w nm ''latest'') = Inr (Some r')"
    and top: "\<forall>(k'', r'') \<in> set (registry self).
                 startswith k'' (nm @ '':'') \<longrightarrow> registered_at r'' \<le> registered_at r'"
    by blast
  from top mem pre have "registered_at r \<le> registered_at r'" by auto
  with later have "registered_at rl < registered_at r'" by simp
  with ret show "\<exists>r'. returned (get_model_info self w nm ''latest'') = Inr (Some r') \<and>
                     r' \<noteq> rl \<and> registered_at rl < registered_at r'"
    by auto
next
  assume "ver \<noteq> ''latest''"
  then show "returned (get_model_info self w nm' ver) =
               Inr (dict_get (registry self) (model_key nm' ver))"
    by (simp add: get_model_info_def returned_def)
next
  assume "ver \<noteq> ''latest''"
  then show "model_key nm ver \<noteq> model_key nm ''latest''"
    by (simp add: model_key_def)
next
  assume "CHR '':'' \<notin> set nm" "ver \<noteq> ''latest''"
  then show "model_key nm' ver \<noteq> model_key nm ''latest''"
    by (rule model_key_latest_only)
next
  show "dict_get (registry (self_after (register_model self w nm ''latest'' path mtype mtr meta now)))
       (model_key nm ''latest'')
     = Some \<lparr>name = nm, version = ''latest'', model_path = path, model_type = mtype,
             metrics = mtr, metadata = (case meta of None \<Rightarrow> [] | Some m \<Rightarrow> m),
             registered_at = now, status = ''active''\<rparr>"
    by (simp add: registry_after_register dict_get_set)
next
  assume "dict_get (registry self) (model_key nm ''latest'') = Some rl"
  then show "dict_get (registry (self_after (update_model_status self w nm ''latest'' stat)))
          (model_key nm ''latest'')
        = Some (rl\<lparr>status := stat\<rparr>)"
    by (simp add: update_model_status_def self_after_def Let_def dict_get_set
             split: prod.splits)
qed

theorem latest_is_reserved_witness:
  "dict_get (registry (self_after clocks_back_2)) (model_key ''m'' ''latest'') = Some m_latest \<and>
   (''m:v1'', m_v1) \<in> set (registry (self_after clocks_back_2)) \<and>
   registered_at m_latest < registered_at m_v1 \<and>
   returned (get_model_info (self_after clocks_back_2) (world_after clocks_back_2) ''m'' ''latest'')
     = Inr (Some m_v1) \<and>
   version m_v1 = ''v1'' \<and>
   returned (get_model_info (self_after clocks_back_2) (world_after clocks_back_2) ''m'' ''v1'')
     = Inr (Some m_v1) \<and>
   model_key ''m'' ''v1'' \<noteq> model_key ''m'' ''latest'' \<and>
   dict_get (registry (self_after
       (update_model_status (self_after clocks_back_2) (world_after clocks_back_2)
          ''m'' ''latest'' ''archived''))) (model_key ''m'' ''latest'')
     = Some (m_latest\<lparr>status := ''archived''\<rparr>)"
  using latest_is_reserved [of "self_after clocks_back_2" "''m''" "world_after clocks_back_2"
          m_latest "''m:v1''" m_v1 "''v1''" "''m''"
          "''models/artifacts/m3.pth''" "''classification''" "[]" None
          "''2024-11-03T01:40:00''" "''archived''"]
  by (simp add: clocks_back_2_eq self_after_def world_after_def returned_def get_model_info_def
                dict_get_def model_key_def m_v1_def m_latest_def update_model_status_def
                save_registry_def Let_def)

text \<open>
  C10 as the specification words it fails for a name that contains a colon. The record
  registered as \<open>("a:b", "latest")\<close> lies under the key \<open>a:b:latest\<close>, which is also
  the composite key of \<open>("a", "b:latest")\<close>; \<open>get_model_info("a", "b:latest")\<close> takes
  the exact-lookup branch and returns that record.
\<close>

theorem colon_name_counterexample:
  "returned colon_name = Inr () \<and>
   registry (self_after colon_name) = [(model_key ''a:b'' ''latest'', ab_latest)] \<and>
   name ab_latest = ''a:b'' \<and> version ab_latest = ''latest'' \<and>
   ''b:latest'' \<noteq> ''latest'' \<and>
   model_key ''a'' ''b:latest'' = model_key ''a:b'' ''latest'' \<and>
   returned (get_model_info (self_after colon_name) (world_after colon_name) ''a'' ''b:latest'')
     = Inr (dict_get (registry (self_after colon_name)) (model_key ''a:b'' ''latest'')) \<and>
   returned (get_model_info (self_after colon_name) (world_after colon_name) ''a'' ''b:latest'')
     = Inr (Some ab_latest)"
  by (simp add: colon_name_eq self_after_def world_after_def returned_def get_model_info_def
                dict_get_def model_key_def ab_latest_def)

section \<open>Facts about the retry loop\<close>

lemma retry_loop_all_false:
  "\<forall>k \<in> set xs. \<not> check k \<Longrightarrow>
   fst (retry_loop check st m d xs) = False \<and>
   invocations (snd (retry_loop check st m d xs)) = length xs \<and>
   sleeps (snd (retry_loop check st m d xs)) = length xs \<and>
   slept (snd (retry_loop check st m d xs)) = d * length xs"
  by (induction xs) (auto split: prod.splits)

lemma retry_loop_all_false_last:
  "\<forall>k \<in> set xs. \<not> check k \<Longrightarrow> xs \<noteq> [] \<Longrightarrow>
   last (snd (retry_loop check st m d xs)) = Sleep d"
proof (induction xs)
  case Nil
  then show ?case by simp
next
  case (Cons a xs)
  then show ?case by (cases xs) (auto split: prod.splits)
qed

lemma retry_loop_first_true:
  "\<forall>k \<in> set ys. \<not> check k \<Longrightarrow> check a \<Longrightarrow>
   fst (retry_loop check st m d (ys @ a # zs)) = True \<and>
   invocations (snd (retry_loop check st m d (ys @ a # zs))) = length ys + 1 \<and>
   sleeps (snd (retry_loop check st m d (ys @ a # zs))) = length ys \<and>
   slept (snd (retry_loop check st m d (ys @ a # zs))) = d * length ys \<and>
   last (snd (retry_loop check st m d (ys @ a # zs))) = Print (st @ '' health check passed'')"
  by (induction ys) (auto split: prod.splits)

lemma retry_loop_ok_iff: "fst (retry_loop check st m d xs) \<longleftrightarrow> (\<exists>k \<in> set xs. check k)"
  by (induction xs) (auto split: prod.splits)

lemma upt_split: "n < m \<Longrightarrow> [0..<m] = [0..<n] @ n # [Suc n..<m]"
proof -
  assume lt: "n < m"
  then have "[0..<m] = [0..<n + (m - n)]" by simp
  also have "\<dots> = [0..<n] @ [n..<n + (m - n)]" by (rule upt_add_eq_append) simp
  also have "[n..<n + (m - n)] = n # [Suc n..<m]" using lt by (simp add: upt_conv_Cons)
  finally show ?thesis .
qed

lemma run_health_check_known:
  "dict_get (checks self) service_type = Some check \<Longrightarrow>
   run_health_check self service_type = retry_loop check service_type 30 2 [0..<30]"
  by (simp add: run_health_check_def)

lemma known_service:
  "dict_get (checks self) service_type = None \<longleftrightarrow>
   service_type \<notin> {''api'', ''database'', ''redis'', ''models''}"
  by (auto simp: checks_def dict_get_def)

lemma checks_all_probes:
  "dict_get (checks (all_probes f)) ''api'' = Some f"
  by (simp add: checks_def dict_get_def all_probes_def)

section \<open>The health check: attempts, waits and exit status\<close>



text \<open>
  C6, as the code has it. \<open>time.sleep(retry_delay)\<close> follows every failed attempt, the
  last one too: when the probe is false on all 30 calls the run sleeps 30 times, 60
  seconds in all, and the last thing it does is sleep. When the probe first answers true
  on call number \<open>n\<close> (counted from 0), the run has slept \<open>n\<close> times, once after each
  failure, and does not sleep after the success.
\<close>

theorem sleep_after_each_failure:
  assumes "dict_get (checks self) service_type = Some check"
  shows "((\<forall>k<30. \<not> check k) \<longrightarrow>
            sleeps (snd (run_health_check self service_type)) = 30 \<and>
            slept (snd (run_health_check self service_type)) = 30 * 2 \<and>
            last (snd (run_health_check self service_type)) = Sleep 2) \<and>
         (\<forall>n<30. (\<forall>k<n. \<not> check k) \<longrightarrow> check n \<longrightarrow>
            fst (run_health_check self service_type) = True \<and>
            invocations (snd (run_health_check self service_type)) = n + 1 \<and>
            sleeps (snd (run_health_check self service_type)) = n \<and>
            slept (snd (run_health_check self service_type)) = n * 2 \<and>
            last (snd (run_health_check self service_type)) =
              Print (service_type @ '' health check passed''))"
proof (intro conjI allI impI)
  assume "\<forall>k<30. \<not> check k"
  then have no: "\<forall>k \<in> set [0..<30]. \<not> check k" by simp
  from retry_loop_all_false [OF no, of service_type 30 2]
  show "sleeps (snd (run_health_check self service_type)) = 30"
    and "slept (snd (run_health_check self service_type)) = 30 * 2"
    by (simp_all add: run_health_check_known [OF assms])
  have "[0..<30::nat] \<noteq> []" by simp
  from retry_loop_all_false_last [OF no this, of service_type 30 2]
  show "last (snd (run_health_check self service_type)) = Sleep 2"
    by (simp add: run_health_check_known [OF assms])
next
  fix n :: nat
  assume n: "n < 30" and before: "\<forall>k<n. \<not> check k" and at: "check n"
  have no: "\<forall>k \<in> set [0..<n]. \<not> check k" using before by simp
  note fact = retry_loop_first_true [OF no at, of service_type 30 2 "[Suc n..<30]"]
  have run: "run_health_check self service_type =
               retry_loop check service_type 30 2 ([0..<n] @ n # [Suc n..<30])"
    by (simp only: run_health_check_known [OF assms] upt_split [OF n, symmetric])
  show "fst (run_health_check self service_type) = True"
    and "invocations (snd (run_health_check self service_type)) = n + 1"
    and "sleeps (snd (run_health_check self service_type)) = n"
    and "slept (snd (run_health_check self service_type)) = n * 2"
    and "last (snd (run_health_check self service_type)) =
           Print (service_type @ '' health check passed'')"
    using fact by (simp_all only: run length_upt diff_zero mult.commute [of 2 n])
qed

theorem sleep_after_each_failure_witness:
  "dict_get (checks (all_probes (\<lambda>k. False))) ''api'' = Some (\<lambda>k. False) \<and>
   sleeps (snd (run_health_check (all_probes (\<lambda>k. False)) ''api'')) = 30 \<and>
   last (snd (run_health_check (all_probes (\<lambda>k. False)) ''api'')) = Sleep 2 \<and>
   dict_get (checks (all_probes (\<lambda>k. 2 \<le> k))) ''api'' = Some (\<lambda>k. 2 \<le> k) \<and>
   sleeps (snd (run_health_check (all_probes (\<lambda>k. 2 \<le> k)) ''api'')) = 2 \<and>
   slept (snd (run_health_check (all_probes (\<lambda>k. 2 \<le> k)) ''api'')) = 4 \<and>
   last (snd (run_health_check (all_probes (\<lambda>k. 2 \<le> k)) ''api''))
     = Print ''api health check passed''"
proof -
  have down:
    "sleeps (snd (run_health_check (all_probes (\<lambda>k. False)) ''api'')) = 30 \<and>
     last (snd (run_health_check (all_probes (\<lambda>k. False)) ''api'')) = Sleep 2"
    using sleep_after_each_failure [OF checks_all_probes, of "\<lambda>k. False"] by simp
  have up:
    "sleeps (snd (run_health_check (all_probes (\<lambda>k. 2 \<le> k)) ''api'')) = 2 \<and>
     slept (snd (run_health_check (all_probes (\<lambda>k. 2 \<le> k)) ''api'')) = 4 \<and>
     last (snd (run_health_check (all_probes (\<lambda>k. 2 \<le> k)) ''api''))
       = Print ''api health check passed''"
    using sleep_after_each_failure
            [OF checks_all_probes, of "\<lambda>k. 2 \<le> k", THEN conjunct2, rule_format, of 2]
    by simp
  show ?thesis
    using down up by (simp add: checks_all_probes)
qed

text \<open>
  C6 as the specification words it fails: with a probe that is always false the run
  sleeps 30 times, not 29, the last event of the run is a sleep, and the time slept is 60
  seconds, more than \<open>(30 - 1) * 2\<close>.
\<close>

theorem sleep_count_counterexample:
  "sleeps (snd (run_health_check (all_probes (\<lambda>k. False)) ''api'')) = 30 \<and>
   sleeps (snd (run_health_check (all_probes (\<lambda>k. False)) ''api'')) \<noteq> 30 - 1 \<and>
   last (snd (run_health_check (all_probes (\<lambda>k. False)) ''api'')) = Sleep 2 \<and>
   slept (snd (run_health_check (all_probes (\<lambda>k. False)) ''api'')) = 60 \<and>
   \<not> slept (snd (run_health_check (all_probes (\<lambda>k. False)) ''api'')) \<le> (30 - 1) * 2"
proof -
  have no: "\<forall>k \<in> set [0..<30]. \<not> (\<lambda>k. False) k" by simp
  have ne: "[0..<30::nat] \<noteq> []" by simp
  from retry_loop_all_false [OF no, of "''api''" 30 2]
       retry_loop_all_false_last [OF no ne, of "''api''" 30 2]
  show ?thesis
    by (simp add: run_health_check_known [OF checks_all_probes])
qed

text \<open>
  C8. Called with one argument, the script exits with status 0 exactly when
  \<open>run_health_check\<close> returns \<open>True\<close> (Passed: the service is known and the probe
  answered true within the 30 attempts) and with status 1 otherwise: when every attempt
  failed, and when the argument is none of \<open>api\<close>, \<open>database\<close>, \<open>redis\<close>,
  \<open>models\<close>.
\<close>

theorem exit_status:
  "fst (main checker [prog, service_type]) =
     (if fst (run_health_check checker service_type) then 0 else 1) \<and>
   (fst (run_health_check checker service_type) \<longleftrightarrow>
      (\<exists>check. dict_get (checks checker) service_type = Some check \<and> (\<exists>k<30. check k))) \<and>
   (service_type \<notin> {''api'', ''database'', ''redis'', ''models''} \<longrightarrow>
      fst (main checker [prog, service_type]) = 1)"
proof (intro conjI impI)
  show code: "fst (main checker [prog, service_type]) =
          (if fst (run_health_check checker service_type) then 0 else 1)"
    by (cases "run_health_check checker service_type")
       (auto simp: main_def split: bool.splits)
  show passed: "fst (run_health_check checker service_type) \<longleftrightarrow>
      (\<exists>check. dict_get (checks checker) service_type = Some check \<and> (\<exists>k<30. check k))"
  proof (cases "dict_get (checks checker) service_type")
    case None
    then show ?thesis by (simp add: run_health_check_def)
  next
    case (Some check)
    then show ?thesis
      by (auto simp: run_health_check_known [OF Some] retry_loop_ok_iff)
  qed
  assume "service_type \<notin> {''api'', ''database'', ''redis'', ''models''}"
  then have "dict_get (checks checker) service_type = None"
    using known_service [of checker service_type] by blast
  with passed have "\<not> fst (run_health_check checker service_type)" by simp
  with code show "fst (main checker [prog, service_type]) = 1" by simp
qed

theorem exit_status_witness:
  "fst (run_health_check (all_probes (\<lambda>k. 2 \<le> k)) ''redis'') \<and>
   fst (main (all_probes (\<lambda>k. 2 \<le> k)) [''health_check.py'', ''redis'']) = 0 \<and>
   \<not> fst (run_health_check (all_probes (\<lambda>k. False)) ''redis'') \<and>
   fst (main (all_probes (\<lambda>k. False)) [''health_check.py'', ''redis'']) = 1 \<and>
   ''cache'' \<notin> {''api'', ''database'', ''redis'', ''models''} \<and>
   fst (main (all_probes (\<lambda>k. 2 \<le> k)) [''health_check.py'', ''cache'']) = 1"
proof -
  have up: "\<exists>k<30. 2 \<le> (k::nat)" by (rule exI [of _ 2]) simp
  show ?thesis
    using up
          exit_status [of "all_probes (\<lambda>k. 2 \<le> k)" "''health_check.py''" "''redis''"]
          exit_status [of "all_probes (\<lambda>k. False)" "''health_check.py''" "''redis''"]
          exit_status [of "all_probes (\<lambda>k. 2 \<le> k)" "''health_check.py''" "''cache''"]
    by (simp add: checks_def dict_get_def all_probes_def)
qed

end
